theory Spec2Isabelle
  imports Main "HOL-Library.Word" "HOL-Library.Multiset"
begin

section \<open>The news back end (server.js): data model and operations\<close>

text \<open>
  The server keeps one process-wide article cache, refreshes it from a fixed list of RSS
  feeds, and proxies two calls to an external API. Everything the handlers read from
  outside the process (the system clock, the network, the time-zone data, the file
  system) is an explicit argument here; everything they mutate is passed in and
  returned.

  JavaScript strings are modelled as \<^typ>\<open>string\<close>, one \<^typ>\<open>char\<close> per code unit, for
  code units below 256.
\<close>

subsection \<open>Decimal rendering\<close>

definition digit :: "nat \<Rightarrow> char" where
  "digit d = ''0123456789'' ! (d mod 10)"

fun digits :: "nat \<Rightarrow> string" where
  "digits n = (if n < 10 then [digit n] else digits (n div 10) @ [digit (n mod 10)])"

declare digits.simps [simp del]

text \<open>\<open>ToZeroPaddedDecimalString(n, minLength)\<close>, and \<open>String.prototype.padStart\<close> with "0".\<close>

definition pad :: "nat \<Rightarrow> nat \<Rightarrow> string" where
  "pad w n = replicate (w - length (digits n)) (CHR ''0'') @ digits n"

subsection \<open>Time values (ECMA-262, Date objects)\<close>

text \<open>
  A time value is a number of milliseconds since 1970-01-01T00:00:00Z. \<open>div\<close> and
  \<open>mod\<close> on \<^typ>\<open>int\<close> round towards minus infinity, as \<open>floor\<close> and the
  specification's modulo do.
\<close>

definition msPerDay :: int where "msPerDay = 86400000"
definition msPerHour :: int where "msPerHour = 3600000"
definition msPerMinute :: int where "msPerMinute = 60000"
definition msPerSecond :: int where "msPerSecond = 1000"

definition Day :: "int \<Rightarrow> int" where "Day t = t div msPerDay"
definition HourFromTime :: "int \<Rightarrow> int" where "HourFromTime t = (t div msPerHour) mod 24"
definition MinFromTime :: "int \<Rightarrow> int" where "MinFromTime t = (t div msPerMinute) mod 60"
definition SecFromTime :: "int \<Rightarrow> int" where "SecFromTime t = (t div msPerSecond) mod 60"
definition msFromTime :: "int \<Rightarrow> int" where "msFromTime t = t mod msPerSecond"
definition WeekDay :: "int \<Rightarrow> int" where "WeekDay t = (Day t + 4) mod 7"

text \<open>
  Year, month (1 = January) and day of the month of a day number, in the proleptic
  Gregorian calendar: the day is located in its 400-year era (146097 days, eras starting
  on 1 March), then in its year and month of the era.
\<close>

definition civil :: "int \<Rightarrow> int \<times> int \<times> int" where
  "civil dn =
     (let z = dn + 719468;
          era = z div 146097;
          doe = z mod 146097;
          yoe = (doe - doe div 1460 + doe div 36524 - doe div 146096) div 365;
          doy = doe - (365 * yoe + yoe div 4 - yoe div 100);
          mp = (5 * doy + 2) div 153;
          d = doy - (153 * mp + 2) div 5 + 1;
          m = (if mp < 10 then mp + 3 else mp - 9);
          y = yoe + era * 400 + (if m \<le> 2 then 1 else 0)
      in (y, m, d))"

definition YearFromTime :: "int \<Rightarrow> int" where "YearFromTime t = fst (civil (Day t))"
definition MonthFromTime :: "int \<Rightarrow> int" where "MonthFromTime t = fst (snd (civil (Day t)))"
definition DateFromTime :: "int \<Rightarrow> int" where "DateFromTime t = snd (snd (civil (Day t)))"



text \<open>\<open>Date.prototype.toISOString\<close>: the UTC fields, \<open>YYYY-MM-DDTHH:mm:ss.sssZ\<close>; a year
  outside 0..9999 is written with a sign and six digits.\<close>

definition isoYear :: "int \<Rightarrow> string" where
  "isoYear y =
     (if 0 \<le> y \<and> y \<le> 9999 then pad 4 (nat y)
      else (if y < 0 then ''-'' else ''+'') @ pad 6 (nat \<bar>y\<bar>))"

definition toISOString :: "int \<Rightarrow> string" where
  "toISOString t =
     isoYear (YearFromTime t) @ ''-'' @ pad 2 (nat (MonthFromTime t)) @ ''-'' @
     pad 2 (nat (DateFromTime t)) @ ''T'' @ pad 2 (nat (HourFromTime t)) @ '':'' @
     pad 2 (nat (MinFromTime t)) @ '':'' @ pad 2 (nat (SecFromTime t)) @ ''.'' @
     pad 3 (nat (msFromTime t)) @ ''Z''"

definition dayNames :: "string list" where
  "dayNames = [''Sun'', ''Mon'', ''Tue'', ''Wed'', ''Thu'', ''Fri'', ''Sat'']"

definition monthNames :: "string list" where
  "monthNames = [''Jan'', ''Feb'', ''Mar'', ''Apr'', ''May'', ''Jun'',
                 ''Jul'', ''Aug'', ''Sep'', ''Oct'', ''Nov'', ''Dec'']"

text \<open>The abstract operation \<open>DateString(tv)\<close> of ECMA-262, on a local time value:
  weekday, month, two-digit day and the year padded to four digits.\<close>

definition DateString :: "int \<Rightarrow> string" where
  "DateString tv =
     dayNames ! nat (WeekDay tv) @ '' '' @
     monthNames ! nat (MonthFromTime tv - 1) @ '' '' @
     pad 2 (nat (DateFromTime tv)) @ '' '' @
     (if 0 \<le> YearFromTime tv then '''' else ''-'') @ pad 4 (nat \<bar>YearFromTime tv\<bar>)"

subsection \<open>Feeds, articles and the cache\<close>

text \<open>What \<open>rss-parser\<close> hands back: every field may be missing (\<open>None\<close> is
  \<open>undefined\<close>). \<open>x || ''\<close> replaces a missing or empty value by the empty string.\<close>

record item =
  title :: "string option"
  contentSnippet :: "string option"
  summary :: "string option"
  pubDate :: "string option"
  link :: "string option"

record feed =
  feedTitle :: "string option"
  items :: "item list option"

text \<open>The article's \<open>summary\<close> and \<open>link\<close> fields are \<open>asummary\<close> and \<open>alink\<close> here, the
  plain names being the item's.\<close>

record article =
  headline :: string
  asummary :: string
  date :: string
  alink :: string
  source :: string

record cache =
  articles :: "article list"
  timestamp :: int
  lastFetchDate :: "string option"

definition FEEDS :: "string list" where
  "FEEDS =
    [''https://www.adexchanger.com/feed/'',
     ''https://digiday.com/feed/'',
     ''https://www.adweek.com/feed/'',
     ''https://martech.org/feed/'',
     ''http://feeds.feedburner.com/Exchangewirecom'',
     ''https://www.mediapost.com/publications/rss/'',
     ''https://performancein.com/feed/'',
     ''https://searchengineland.com/feed'',
     ''https://marketingland.com/feed'',
     ''https://www.clickz.com/feed/'',
     ''https://www.campaignlive.co.uk/rss'',
     ''https://martechseries.com/feed/'',
     ''https://www.thedrum.com/rss'',
     ''https://www.cmswire.com/index.rss'',
     ''https://www.dmnews.com/feed'']"

definition initialCache :: cache where
  "initialCache = \<lparr>articles = [], timestamp = 0, lastFetchDate = None\<rparr>"

text \<open>\<open>a || b\<close> on optional strings: the first operand unless it is missing or empty.\<close>

definition orElse :: "string option \<Rightarrow> string \<Rightarrow> string" where
  "orElse x dflt = (case x of None \<Rightarrow> dflt | Some s \<Rightarrow> if s = [] then dflt else s)"

definition toArticle :: "feed \<Rightarrow> item \<Rightarrow> article" where
  "toArticle f it =
     \<lparr>headline = orElse (title it) [],
      asummary = orElse (contentSnippet it) (orElse (summary it) []),
      date = orElse (pubDate it) [],
      alink = orElse (link it) [],
      source = orElse (feedTitle f) []\<rparr>"

definition feedArticles :: "feed \<Rightarrow> article list" where
  "feedArticles f = map (toArticle f) (case items f of None \<Rightarrow> [] | Some its \<Rightarrow> its)"

text \<open>
  The loop of \<open>fetchRSSFeeds\<close> over the feed URLs. \<open>parseURL url\<close> is the outcome of
  \<open>await parser.parseURL(url)\<close> in this cycle: \<open>Inl msg\<close> when it rejects (network
  error, malformed feed, timeout), \<open>Inr feed\<close> otherwise. The inner \<open>try/catch\<close> turns
  a rejection into a warning and goes on with the next URL.
\<close>

fun fetchLoop :: "(string \<Rightarrow> string + feed) \<Rightarrow> string list \<Rightarrow> article list \<Rightarrow> article list" where
  "fetchLoop parseURL [] allItems = allItems"
| "fetchLoop parseURL (url # urls) allItems =
     (case parseURL url of
        Inr f \<Rightarrow> fetchLoop parseURL urls (allItems @ feedArticles f)
      | Inl err \<Rightarrow> fetchLoop parseURL urls allItems)"

subsection \<open>Sorting by date\<close>

text \<open>
  \<open>new Date(s)\<close> for a string: the engine's \<open>Date.parse\<close> is a parameter (\<open>None\<close> is
  \<open>NaN\<close>, an Invalid Date); the empty string never parses.
\<close>

definition newDate :: "(string \<Rightarrow> int option) \<Rightarrow> string \<Rightarrow> int option" where
  "newDate dateParse s = (if s = [] then None else dateParse s)"

text \<open>The comparator \<open>(a, b) => new Date(b.date) - new Date(a.date)\<close>; a subtraction with
  \<open>NaN\<close> is \<open>NaN\<close>.\<close>

definition comparefn :: "(string \<Rightarrow> int option) \<Rightarrow> article \<Rightarrow> article \<Rightarrow> int option" where
  "comparefn dateParse a b =
     (case (newDate dateParse (date b), newDate dateParse (date a)) of
        (Some tb, Some ta) \<Rightarrow> Some (tb - ta)
      | _ \<Rightarrow> None)"

text \<open>\<open>SortCompare\<close> of ECMA-262: a comparator result of \<open>NaN\<close> counts as \<open>+0\<close>.\<close>

definition SortCompare :: "('a \<Rightarrow> 'a \<Rightarrow> int option) \<Rightarrow> 'a \<Rightarrow> 'a \<Rightarrow> int" where
  "SortCompare cmp x y = (case cmp x y of None \<Rightarrow> 0 | Some v \<Rightarrow> v)"

text \<open>
  A consistent comparator in the sense of ECMA-262, on the elements of a list and on the
  outcomes \<open>sc\<close> the sort sees (after \<open>SortCompare\<close>): equality is reflexive, symmetric
  and transitive, and "less" and "greater" are transitive.
\<close>

definition consistentOn :: "('a \<Rightarrow> 'a \<Rightarrow> int) \<Rightarrow> 'a list \<Rightarrow> bool" where
  "consistentOn sc xs =
     list_all (\<lambda>a. list_all (\<lambda>b. list_all (\<lambda>c.
         sc a a = 0 \<and>
         (if sc a b = 0 then sc b a = 0 else True) \<and>
         (if sc a b = 0 \<and> sc b c = 0 then sc a c = 0 else True) \<and>
         (if sc a b < 0 \<and> sc b c < 0 then sc a c < 0 else True) \<and>
         (if 0 < sc a b \<and> 0 < sc b c then 0 < sc a c else True)) xs) xs) xs"

text \<open>
  The stable sorted arrangement of a list: each element goes in front of the first
  element it does not compare greater than. For consistent outcomes this is the
  arrangement every stable sort ends with.
\<close>

fun insertStable :: "('a \<Rightarrow> 'a \<Rightarrow> int) \<Rightarrow> 'a \<Rightarrow> 'a list \<Rightarrow> 'a list" where
  "insertStable sc x [] = [x]"
| "insertStable sc x (y # ys) =
     (if sc x y \<le> 0 then x # y # ys else y # insertStable sc x ys)"

fun stableOrder :: "('a \<Rightarrow> 'a \<Rightarrow> int) \<Rightarrow> 'a list \<Rightarrow> 'a list" where
  "stableOrder sc [] = []"
| "stableOrder sc (x # xs) = insertStable sc x (stableOrder sc xs)"

text \<open>
  \<open>Array.prototype.sort\<close> with a comparator. The sort is stable, so for consistent
  outcomes its result is the stable sorted arrangement. For outcomes that are not
  consistent (an article without a date among articles with different dates) the order
  is whatever the engine's algorithm makes of them: \<open>engine sc xs\<close>, a parameter. A
  sort hands back a rearrangement of the elements; a value of the parameter that is not
  one is not taken, and the list stays as it is.
\<close>

definition arraySort ::
  "(('a \<Rightarrow> 'a \<Rightarrow> int) \<Rightarrow> 'a list \<Rightarrow> 'a list) \<Rightarrow> ('a \<Rightarrow> 'a \<Rightarrow> int option) \<Rightarrow> 'a list \<Rightarrow> 'a list" where
  "arraySort engine cmp xs =
     (if consistentOn (SortCompare cmp) xs then stableOrder (SortCompare cmp) xs
      else if mset (engine (SortCompare cmp) xs) = mset xs then engine (SortCompare cmp) xs
      else xs)"

subsection \<open>The world outside the process\<close>

text \<open>
  \<open>clock i\<close> is the \<open>i\<close>-th reading of the system clock (\<open>new Date()\<close>, \<open>Date.now()\<close>)
  and \<open>reads\<close> counts the readings taken; \<open>network k\<close> is what \<open>parser.parseURL\<close> gives
  during the \<open>k\<close>-th fetch cycle and \<open>cycles\<close> counts the cycles started; \<open>nyOffset t\<close> is
  the offset of America/New_York from UTC at the instant \<open>t\<close>, in milliseconds;
  \<open>LocalTZA t isUTC\<close> is the offset of the server's own zone, as in ECMA-262: at the
  instant \<open>t\<close> when \<open>isUTC\<close> holds, and otherwise at the local time value \<open>t\<close> (a local
  time that occurs twice or not at all is read with the offset before the change);
  \<open>dateParse\<close> is the engine's \<open>Date.parse\<close>, and \<open>engineSort\<close> is what the engine's sort
  does with outcomes that are not consistent.
\<close>

record world =
  clock :: "nat \<Rightarrow> int"
  reads :: nat
  network :: "nat \<Rightarrow> string \<Rightarrow> string + feed"
  cycles :: nat
  nyOffset :: "int \<Rightarrow> int"
  LocalTZA :: "int \<Rightarrow> bool \<Rightarrow> int"
  dateParse :: "string \<Rightarrow> int option"
  engineSort :: "(article \<Rightarrow> article \<Rightarrow> int) \<Rightarrow> article list \<Rightarrow> article list"

definition now :: "world \<Rightarrow> int \<times> world" where
  "now w = (clock w (reads w), w\<lparr>reads := Suc (reads w)\<rparr>)"

text \<open>\<open>LocalTime\<close> and \<open>UTC\<close> of ECMA-262: from a time value to the server's local time
  value and back.\<close>

definition LocalTime :: "world \<Rightarrow> int \<Rightarrow> int" where
  "LocalTime w t = t + LocalTZA w t True"

definition UTC :: "world \<Rightarrow> int \<Rightarrow> int" where
  "UTC w t = t - LocalTZA w t False"

text \<open>
  \<open>new Date(now.toLocaleString("en-US", {timeZone: "America/New_York"}))\<close>: the wall clock
  of New York, printed to the second (\<open>M/D/YYYY, h:mm:ss AM\<close>) and read back as a local
  time of the server's zone.
\<close>

definition estTime :: "world \<Rightarrow> int \<Rightarrow> int" where
  "estTime w t = UTC w (((t + nyOffset w t) div msPerSecond) * msPerSecond)"

definition getHours :: "world \<Rightarrow> int \<Rightarrow> int" where
  "getHours w d = HourFromTime (LocalTime w d)"




definition toDateString :: "world \<Rightarrow> int \<Rightarrow> string" where
  "toDateString w d = DateString (LocalTime w d)"



subsection \<open>The fetch cycle and the scheduler\<close>

text \<open>
  \<open>fetchRSSFeeds\<close>. Inside the outer \<open>try\<close> only \<open>parseURL\<close> and the mapping of its
  items can raise, and both stand in the inner \<open>try\<close>: the body always reaches the
  assignment to \<open>cache\<close>. The clock is read for the first log line, for \<open>timestamp\<close>
  and for \<open>lastFetchDate\<close>.
\<close>

definition fetchRSSFeeds :: "world \<Rightarrow> cache \<Rightarrow> cache \<times> world" where
  "fetchRSSFeeds w c =
     (let (t0, w1) = now w;
          parseURL = network w1 (cycles w1);
          w2 = w1\<lparr>cycles := Suc (cycles w1)\<rparr>;
          allItems = fetchLoop parseURL FEEDS [];
          sorted = arraySort (engineSort w2) (comparefn (dateParse w2)) allItems;
          (t1, w3) = now w2;
          (t2, w4) = now w3
      in (\<lparr>articles = sorted, timestamp = t1, lastFetchDate = Some (toISOString t2)\<rparr>, w4))"

definition shouldFetchToday :: "world \<Rightarrow> cache \<Rightarrow> bool \<times> world" where
  "shouldFetchToday w c =
     (let (t, w1) = now w;
          est = estTime w1 t;
          currentHour = getHours w1 est;
          currentDate = toDateString w1 est
      in (currentHour = 7 \<and> lastFetchDate c \<noteq> Some currentDate, w1))"



subsection \<open>Responses\<close>

datatype jsonv =
    JNull
  | JBool bool
  | JNum int
  | JStr string
  | JArr "jsonv list"
  | JObj "(string \<times> jsonv) list"

text \<open>The JSON bodies the routes send, by shape: \<open>{articles, lastFetch, cacheStatus}\<close>,
  \<open>{message, articlesCount, lastFetch}\<close>, \<open>{message}\<close>, \<open>{summary}\<close>, \<open>{error}\<close>,
  \<open>{error, details}\<close> with a message or with the upstream's error object; and the audio
  bytes.\<close>

datatype body =
    NewsBody (newsArticles: "article list") (newsLastFetch: "string option") (cacheStatus: string)
  | FetchNowBody string (articlesCount: nat) (lastFetch: "string option")
  | MessageBody string
  | SummaryBody string
  | ErrorBody string
  | ErrorDetails string string
  | UpstreamErrorBody string jsonv
  | AudioBody "8 word list"

datatype hvalue = HStr string | HNum nat

record response =
  status :: nat
  headers :: "(string \<times> hvalue) list"
  rbody :: body

definition json :: "body \<Rightarrow> response" where
  "json b = \<lparr>status = 200, headers = [], rbody = b\<rparr>"

definition failed :: "nat \<Rightarrow> body \<Rightarrow> response" where
  "failed code b = \<lparr>status = code, headers = [], rbody = b\<rparr>"

subsection \<open>The article routes\<close>

definition getNews :: "world \<Rightarrow> cache \<Rightarrow> response \<times> cache \<times> world" where
  "getNews w c =
     (let (due, w1) = shouldFetchToday w c;
          (c1, w2) = (if due then fetchRSSFeeds w1 c else (c, w1))
      in if length (articles c1) > 0
         then (json (NewsBody (articles c1) (lastFetchDate c1) ''serving cached data''), c1, w2)
         else (let (c2, w3) = fetchRSSFeeds w2 c1
               in (json (NewsBody (articles c2) (lastFetchDate c2) ''initial fetch''), c2, w3)))"

definition clearCache :: "cache \<Rightarrow> response \<times> cache" where
  "clearCache c =
     (json (MessageBody ''Cache cleared''),
      \<lparr>articles = [], timestamp = 0, lastFetchDate = None\<rparr>)"

definition fetchNow :: "world \<Rightarrow> cache \<Rightarrow> response \<times> cache \<times> world" where
  "fetchNow w c =
     (let (c1, w1) = fetchRSSFeeds w c
      in (json (FetchNowBody ''Manual fetch completed'' (length (articles c1)) (lastFetchDate c1)),
          c1, w1))"

subsection \<open>String operations of the summarizer\<close>

text \<open>White space and line terminators (what \<open>trim\<close> strips and \<open>\s\<close> matches) among
  the code units below 256: tab, line feed, vertical tab, form feed, carriage return,
  space and no-break space.\<close>

definition isSpace :: "char \<Rightarrow> bool" where
  "isSpace c = (c \<in> set [CHR 0x09, CHR 0x0A, CHR 0x0B, CHR 0x0C, CHR 0x0D, CHR 0x20, CHR 0xA0])"

definition trim :: "string \<Rightarrow> string" where
  "trim s = rev (dropWhile isSpace (rev (dropWhile isSpace s)))"

definition startsWithDash :: "string \<Rightarrow> bool" where
  "startsWithDash s = (case s of [] \<Rightarrow> False | c # cs \<Rightarrow> c = CHR ''-'')"

definition isNL :: "char \<Rightarrow> bool" where
  "isNL c = (c = CHR 0x0A)"

text \<open>
  \<open>s.split(/\n+/)\<close>: the pieces between the maximal runs of line feeds. \<open>cur\<close> is the
  piece being read. A run at the start or at the end of the string leaves an empty piece
  there, and the empty string gives one empty piece.
\<close>

function splitNL :: "string \<Rightarrow> string \<Rightarrow> string list" where
  "splitNL cur [] = [cur]"
| "splitNL cur (c # cs) =
     (if isNL c then cur # splitNL [] (dropWhile isNL cs) else splitNL (cur @ [c]) cs)"
  by pat_completeness auto
termination
  by (relation "measure (\<lambda>(cur, s). length s)") (auto simp: less_Suc_eq_le length_dropWhile_le)

text \<open>\<open>line.replace(/^\s*-\s*/, '')\<close>: the pattern matches only at the start of the
  line, and only when a dash follows the leading white space; the match, with the white
  space after the dash, is removed.\<close>

definition stripBullet :: "string \<Rightarrow> string" where
  "stripBullet line =
     (case dropWhile isSpace line of
        [] \<Rightarrow> line
      | c # cs \<Rightarrow> if c = CHR ''-'' then dropWhile isSpace cs else line)"

definition bulletItems :: "string \<Rightarrow> string list" where
  "bulletItems summaryRaw =
     filter (\<lambda>s. s \<noteq> []) (map (\<lambda>line. trim (stripBullet line)) (splitNL [] summaryRaw))"

definition formatSummary :: "string \<Rightarrow> string" where
  \<open>formatSummary summaryRaw =
     (if startsWithDash summaryRaw
      then ''<ul style="padding-left:1.5em;list-style:disc;">'' @
           concat (map (\<lambda>item. ''<li>'' @ item @ ''</li>'') (bulletItems summaryRaw)) @
           ''</ul>''
      else summaryRaw)\<close>

text \<open>
  The reading of the specification's sentence "reformat it from a newline-delimited
  bullet list into a structured list": one list entry for every line that has text, a
  line being what stands between two line feeds, without its bullet marker and the white
  space around it.
\<close>

fun linesOf :: "string \<Rightarrow> string \<Rightarrow> string list" where
  "linesOf cur [] = [cur]"
| "linesOf cur (c # cs) = (if isNL c then cur # linesOf [] cs else linesOf (cur @ [c]) cs)"

definition specBullets :: "string \<Rightarrow> string list" where
  "specBullets s = filter (\<lambda>l. l \<noteq> []) (map (\<lambda>l. trim (stripBullet l)) (linesOf [] s))"

subsection \<open>The summarize route\<close>

text \<open>
  Reading the property \<open>k\<close> of a value that is neither \<open>null\<close> nor \<open>undefined\<close>; \<open>None\<close>
  is \<open>undefined\<close>. The keys read are \<open>choices\<close>, \<open>0\<close>, \<open>message\<close> and \<open>content\<close>: an
  object has them when they are its own, an array and a string have \<open>0\<close> when they are
  not empty, and numbers and booleans have none of them.
\<close>

definition getProp :: "jsonv \<Rightarrow> string \<Rightarrow> jsonv option" where
  "getProp v k =
     (case v of
        JObj kvs \<Rightarrow> map_of kvs k
      | JArr xs \<Rightarrow> (if k = ''0'' then (case xs of [] \<Rightarrow> None | x # _ \<Rightarrow> Some x) else None)
      | JStr s \<Rightarrow> (if k = ''0'' then (case s of [] \<Rightarrow> None | c # _ \<Rightarrow> Some (JStr [c])) else None)
      | _ \<Rightarrow> None)"

text \<open>An optional chain step \<open>x?.k\<close>: \<open>undefined\<close> when \<open>x\<close> is \<open>null\<close> or \<open>undefined\<close>.\<close>

definition optChain :: "jsonv option \<Rightarrow> string \<Rightarrow> jsonv option" where
  "optChain x k = (case x of None \<Rightarrow> None | Some JNull \<Rightarrow> None | Some v \<Rightarrow> getProp v k)"

text \<open>
  \<open>data.choices?.[0]?.message?.content?.trim() || ''\<close>. Reading \<open>choices\<close> of \<open>null\<close>
  raises a TypeError, and so does calling \<open>trim\<close> on a content that is not a string
  (no other JSON value has a method \<open>trim\<close>); \<open>Inl\<close> carries the message.
\<close>

definition extractContent :: "jsonv \<Rightarrow> string + string" where
  "extractContent data =
     (if data = JNull then Inl ''Cannot read properties of null (reading 'choices')''
      else (case optChain (optChain (optChain (getProp data ''choices'') ''0'') ''message'') ''content'' of
              None \<Rightarrow> Inr []
            | Some JNull \<Rightarrow> Inr []
            | Some (JStr s) \<Rightarrow> Inr (trim s)
            | Some _ \<Rightarrow> Inl ''data.choices?.[0]?.message?.content?.trim is not a function''))"

text \<open>
  What a \<open>fetch\<close> call comes to: it rejects (\<open>Rejected msg\<close>, a transport failure), or
  it resolves with a response of any status. \<open>upJson\<close> is what \<open>res.json()\<close> gives
  (\<open>Inl\<close> when the body is not JSON), \<open>upBytes\<close> what \<open>res.arrayBuffer()\<close> gives.
\<close>

record upstream =
  upStatus :: nat
  upJson :: "string + jsonv"
  upBytes :: "8 word list"

datatype fetched = Rejected string | Resolved upstream

definition ok :: "upstream \<Rightarrow> bool" where
  "ok r = (200 \<le> upStatus r \<and> upStatus r \<le> 299)"

definition falsy :: "string option \<Rightarrow> bool" where
  "falsy text = (case text of None \<Rightarrow> True | Some s \<Rightarrow> s = [])"

text \<open>\<open>POST /api/summarize\<close>; \<open>openai\<close> is what the call of the chat-completion API
  comes to. The handler does not look at the status of the response.\<close>

definition summarize :: "string option \<Rightarrow> fetched \<Rightarrow> response" where
  "summarize text openai =
     (if falsy text then failed 400 (ErrorBody ''Missing text'')
      else (case openai of
              Rejected msg \<Rightarrow> failed 500 (ErrorDetails ''Failed to summarize'' msg)
            | Resolved openaiRes \<Rightarrow>
                (case upJson openaiRes of
                   Inl msg \<Rightarrow> failed 500 (ErrorDetails ''Failed to summarize'' msg)
                 | Inr data \<Rightarrow>
                     (case extractContent data of
                        Inl msg \<Rightarrow> failed 500 (ErrorDetails ''Failed to summarize'' msg)
                      | Inr summaryRaw \<Rightarrow> json (SummaryBody (formatSummary summaryRaw))))))"

subsection \<open>The text-to-speech route\<close>














section \<open>Example inputs\<close>

text \<open>A feed with one dated and one undated entry, a network on which only that feed
  answers, and a network on which none does.\<close>

definition datedItem :: item where
  "datedItem =
     \<lparr>title = Some ''Upfronts recap'', contentSnippet = None, summary = Some ''What sold'',
      pubDate = Some ''Wed, 01 May 2024 10:00:00 GMT'',
      link = Some ''https://digiday.com/upfronts''\<rparr>"

definition undatedItem :: item where
  "undatedItem =
     \<lparr>title = Some ''Sponsored'', contentSnippet = Some ''Partner content'', summary = None,
      pubDate = None, link = None\<rparr>"

definition digiday :: feed where
  "digiday = \<lparr>feedTitle = Some ''Digiday'', items = Some [undatedItem, datedItem]\<rparr>"

definition onlyDigiday :: "string \<Rightarrow> string + feed" where
  "onlyDigiday url =
     (if url = ''https://digiday.com/feed/'' then Inr digiday
      else Inl ''getaddrinfo ENOTFOUND'')"

definition noFeed :: "string \<Rightarrow> string + feed" where
  "noFeed url = Inl ''getaddrinfo ENOTFOUND''"

text \<open>A feed whose two entries are dated, the older one first.\<close>

definition olderItem :: item where
  "olderItem =
     \<lparr>title = Some ''Agency moves'', contentSnippet = Some ''Who went where'', summary = None,
      pubDate = Some ''Tue, 30 Apr 2024 09:30:00 GMT'',
      link = Some ''https://www.adweek.com/moves''\<rparr>"

definition adweek :: feed where
  "adweek = \<lparr>feedTitle = Some ''Adweek'', items = Some [olderItem, datedItem]\<rparr>"

definition onlyAdweek :: "string \<Rightarrow> string + feed" where
  "onlyAdweek url =
     (if url = ''https://www.adweek.com/feed/'' then Inr adweek
      else Inl ''getaddrinfo ENOTFOUND'')"

text \<open>What \<open>Date.parse\<close> makes of the two dates above.\<close>

definition parseRFC :: "string \<Rightarrow> int option" where
  "parseRFC s =
     (if s = ''Wed, 01 May 2024 10:00:00 GMT'' then Some 1714557600000
      else if s = ''Tue, 30 Apr 2024 09:30:00 GMT'' then Some 1714469400000
      else None)"

text \<open>
  Two worlds on 1 May 2024, New York on daylight time (four hours behind UTC), the
  server on UTC, the clock one minute further at every reading: one starting at 11:00 in
  New York (15:00 UTC), one at 07:10 (11:10 UTC). The argument is the network of each
  fetch cycle. The lists fetched in the examples have consistent outcomes, so the
  engine's sort for the others is never consulted.
\<close>

definition lateMorning :: "(nat \<Rightarrow> string \<Rightarrow> string + feed) \<Rightarrow> world" where
  "lateMorning net =
     \<lparr>clock = (\<lambda>i. 1714575600000 + 60000 * int i), reads = 0, network = net, cycles = 0,
      nyOffset = (\<lambda>t. - 14400000), LocalTZA = (\<lambda>t isUTC. 0), dateParse = parseRFC,
      engineSort = (\<lambda>sc xs. xs)\<rparr>"

definition sevenTen :: "(nat \<Rightarrow> string \<Rightarrow> string + feed) \<Rightarrow> world" where
  "sevenTen net =
     \<lparr>clock = (\<lambda>i. 1714561800000 + 60000 * int i), reads = 0, network = net, cycles = 0,
      nyOffset = (\<lambda>t. - 14400000), LocalTZA = (\<lambda>t isUTC. 0), dateParse = parseRFC,
      engineSort = (\<lambda>sc xs. xs)\<rparr>"



text \<open>A cache as a fetch cycle of the day before left it.\<close>

definition yesterdaysCache :: cache where
  "yesterdaysCache =
     \<lparr>articles = [toArticle adweek olderItem], timestamp = 1714474800012,
      lastFetchDate = Some ''2024-04-30T11:00:00.012Z''\<rparr>"

text \<open>A network that answers during the first fetch cycle only, and the states after the
  first cycle and after the next one, starting from the empty cache at 11:00.\<close>

definition firstCycleOnly :: "nat \<Rightarrow> string \<Rightarrow> string + feed" where
  "firstCycleOnly k = (if k = 0 then onlyDigiday else noFeed)"

definition afterFirstCycle :: "cache \<times> world" where
  "afterFirstCycle = fetchRSSFeeds (lateMorning firstCycleOnly) initialCache"

definition afterFailedCycle :: "cache \<times> world" where
  "afterFailedCycle = fetchRSSFeeds (snd afterFirstCycle) (fst afterFirstCycle)"

text \<open>Two requests \<open>GET /api/news\<close> in a row, the first at 07:10 in New York on
  yesterday's cache, with one feed answering.\<close>

definition firstRequest :: "response \<times> cache \<times> world" where
  "firstRequest = getNews (sevenTen (\<lambda>k. onlyDigiday)) yesterdaysCache"

definition secondRequest :: "response \<times> cache \<times> world" where
  "secondRequest = getNews (snd (snd firstRequest)) (fst (snd firstRequest))"

text \<open>The shape of a chat-completion answer with the given content, and the answer to a
  request with a bad API key.\<close>

definition chatCompletion :: "string \<Rightarrow> jsonv" where
  "chatCompletion content =
     JObj [(''id'', JStr ''chatcmpl-1''),
           (''choices'',
            JArr [JObj [(''index'', JNum 0),
                        (''message'', JObj [(''role'', JStr ''assistant''),
                                            (''content'', JStr content)])]])]"

definition unauthorized :: upstream where
  "unauthorized =
     \<lparr>upStatus = 401,
      upJson = Inr (JObj [(''error'',
                 JObj [(''message'', JStr ''Incorrect API key provided''),
                       (''type'', JStr ''invalid_request_error'')])]),
      upBytes = []\<rparr>"



text \<open>
  The specification's reading of a date that does not parse: the epoch, so that the
  article sorts after every dated one.
\<close>

definition epochFallback :: "(string \<Rightarrow> int option) \<Rightarrow> article \<Rightarrow> int" where
  "epochFallback dp a = (case newDate dp (date a) of None \<Rightarrow> 0 | Some t \<Rightarrow> t)"

section \<open>Properties\<close>

subsection \<open>Auxiliary facts\<close>

lemma digits_nonempty: "digits n \<noteq> []"
  by (subst digits.simps) simp

lemma fetchLoop_append:
  "fetchLoop p urls acc =
     acc @ concat (map (\<lambda>u. feedArticles (projr (p u))) (filter (\<lambda>u. \<not> isl (p u)) urls))"
proof (induction urls arbitrary: acc)
  case Nil
  show ?case by simp
next
  case (Cons u urls)
  show ?case
  proof (cases "p u")
    case (Inl e)
    then show ?thesis using Cons.IH [of acc] by simp
  next
    case (Inr f)
    then show ?thesis using Cons.IH [of "acc @ feedArticles f"] by simp
  qed
qed

lemma length_insertStable: "length (insertStable sc x ys) = Suc (length ys)"
  by (induction ys) simp_all

lemma length_stableOrder: "length (stableOrder sc xs) = length xs"
  by (induction xs) (simp_all add: length_insertStable)

lemma set_insertStable: "set (insertStable sc x ys) = insert x (set ys)"
  by (induction ys) auto

lemma set_stableOrder: "set (stableOrder sc xs) = set xs"
  by (induction xs) (simp_all add: set_insertStable)

lemma length_arraySort: "length (arraySort engine cmp xs) = length xs"
proof (cases "consistentOn (SortCompare cmp) xs")
  case True
  then show ?thesis by (simp add: arraySort_def length_stableOrder)
next
  case False
  show ?thesis
  proof (cases "mset (engine (SortCompare cmp) xs) = mset xs")
    case True
    then have "length (engine (SortCompare cmp) xs) = length xs" by (rule mset_eq_length)
    then show ?thesis using \<open>\<not> consistentOn (SortCompare cmp) xs\<close> True
      by (simp add: arraySort_def)
  next
    case False
    then show ?thesis using \<open>\<not> consistentOn (SortCompare cmp) xs\<close>
      by (simp add: arraySort_def)
  qed
qed

lemma set_arraySort: "set (arraySort engine cmp xs) = set xs"
proof (cases "consistentOn (SortCompare cmp) xs")
  case True
  then show ?thesis by (simp add: arraySort_def set_stableOrder)
next
  case False
  show ?thesis
  proof (cases "mset (engine (SortCompare cmp) xs) = mset xs")
    case True
    then have "set (engine (SortCompare cmp) xs) = set xs" by (rule mset_eq_setD)
    then show ?thesis using \<open>\<not> consistentOn (SortCompare cmp) xs\<close> True
      by (simp add: arraySort_def)
  next
    case False
    then show ?thesis using \<open>\<not> consistentOn (SortCompare cmp) xs\<close>
      by (simp add: arraySort_def)
  qed
qed

lemma arraySort_Nil_iff: "arraySort engine cmp xs = [] \<longleftrightarrow> xs = []"
  using length_arraySort [of engine cmp xs] by (metis length_0_conv)

lemma arraySort_Nil [simp]: "arraySort engine cmp [] = []"
  by (simp add: arraySort_Nil_iff)

lemma arraySort_consistent:
  "consistentOn (SortCompare cmp) xs \<Longrightarrow> arraySort engine cmp xs = stableOrder (SortCompare cmp) xs"
  by (simp add: arraySort_def)

lemma noFeed_fails: "\<forall>u \<in> set urls. isl (noFeed u)"
  by (simp add: noFeed_def)

lemma fetchLoop_onlyDigiday: "fetchLoop onlyDigiday FEEDS [] = feedArticles digiday"
  by (simp add: FEEDS_def onlyDigiday_def)

lemma fetchLoop_onlyAdweek: "fetchLoop onlyAdweek FEEDS [] = feedArticles adweek"
  by (simp add: FEEDS_def onlyAdweek_def)

lemma fetchRSSFeeds_eq:
  "fetchRSSFeeds w c =
     (\<lparr>articles = arraySort (engineSort w) (comparefn (dateParse w))
                   (fetchLoop (network w (cycles w)) FEEDS []),
       timestamp = clock w (Suc (reads w)),
       lastFetchDate = Some (toISOString (clock w (Suc (Suc (reads w)))))\<rparr>,
      w\<lparr>reads := Suc (Suc (Suc (reads w))), cycles := Suc (cycles w)\<rparr>)"
  by (simp add: fetchRSSFeeds_def now_def Let_def)

subsection \<open>The feed loop\<close>

text \<open>
  Claim C2. For every list of feed URLs in which at least one feed fails to retrieve or
  parse, the loop of the fetch cycle ends normally, and the items it has collected are
  exactly the articles of the feeds that answered, concatenated in the order of the URL
  list; a failing feed contributes nothing.
\<close>

theorem fetchLoop_skips_failing_feeds:
  assumes "\<exists>u \<in> set urls. isl (parseURL u)"
  shows "fetchLoop parseURL urls [] =
           concat (map (\<lambda>u. feedArticles (projr (parseURL u)))
                       (filter (\<lambda>u. \<not> isl (parseURL u)) urls))"
  using fetchLoop_append [of parseURL urls "[]"] by simp

theorem fetchLoop_skips_failing_feeds_witness:
  "(\<exists>u \<in> set FEEDS. isl (onlyDigiday u)) \<and>
   fetchLoop onlyDigiday FEEDS [] =
     [\<lparr>headline = ''Sponsored'', asummary = ''Partner content'', date = [], alink = [],
       source = ''Digiday''\<rparr>,
      \<lparr>headline = ''Upfronts recap'', asummary = ''What sold'',
       date = ''Wed, 01 May 2024 10:00:00 GMT'', alink = ''https://digiday.com/upfronts'',
       source = ''Digiday''\<rparr>]"
proof -
  have h: "\<exists>u \<in> set FEEDS. isl (onlyDigiday u)"
    by (simp add: FEEDS_def onlyDigiday_def)
  show ?thesis
    using h fetchLoop_skips_failing_feeds [OF h]
    by (simp add: FEEDS_def onlyDigiday_def digiday_def feedArticles_def toArticle_def
        orElse_def datedItem_def undatedItem_def)
qed

subsection \<open>The order of the cached articles\<close>

lemma insertStable_sorted:
  assumes "\<And>a b. a \<in> S \<Longrightarrow> b \<in> S \<Longrightarrow> sc a b = k b - k a"
    and "x \<in> S" and "set ys \<subseteq> S"
    and "sorted_wrt (\<lambda>a b. k b \<le> k a) ys"
  shows "sorted_wrt (\<lambda>a b. k b \<le> k a) (insertStable sc x ys)"
  using assms(3,4)
proof (induction ys)
  case Nil
  show ?case by simp
next
  case (Cons y ys)
  have xy: "sc x y = k y - k x"
    using assms(1) [of x y] assms(2) Cons.prems(1) by simp
  show ?case
  proof (cases "sc x y \<le> 0")
    case True
    then have "k y \<le> k x" using xy by simp
    then show ?thesis using True Cons.prems(2) by fastforce
  next
    case False
    then have "k x \<le> k y" using xy by simp
    moreover have "sorted_wrt (\<lambda>a b. k b \<le> k a) (insertStable sc x ys)"
      using Cons by simp
    ultimately show ?thesis using False Cons.prems(2) by (auto simp: set_insertStable)
  qed
qed

lemma stableOrder_sorted:
  assumes "\<And>a b. a \<in> S \<Longrightarrow> b \<in> S \<Longrightarrow> sc a b = k b - k a"
    and "set xs \<subseteq> S"
  shows "sorted_wrt (\<lambda>a b. k b \<le> k a) (stableOrder sc xs)"
  using assms(2)
proof (induction xs)
  case Nil
  show ?case by simp
next
  case (Cons x xs)
  have "sorted_wrt (\<lambda>a b. k b \<le> k a) (stableOrder sc xs)" using Cons by simp
  moreover have "set (stableOrder sc xs) \<subseteq> S" using Cons.prems by (simp add: set_stableOrder)
  ultimately show ?case
    using insertStable_sorted [of S sc k x "stableOrder sc xs"] assms(1) Cons.prems by simp
qed

text \<open>Outcomes that are differences of a key are consistent.\<close>

lemma consistentOn_key:
  fixes k :: "'a \<Rightarrow> int"
  assumes "\<And>a b. a \<in> set xs \<Longrightarrow> b \<in> set xs \<Longrightarrow> sc a b = k b - k a"
  shows "consistentOn sc xs"
  unfolding consistentOn_def list_all_iff
proof (intro ballI)
  fix a b c
  assume "a \<in> set xs" "b \<in> set xs" "c \<in> set xs"
  then have "sc a a = 0" "sc a b = k b - k a" "sc b a = k a - k b" "sc b c = k c - k b"
    "sc a c = k c - k a"
    using assms by simp_all
  then show "sc a a = 0 \<and>
         (if sc a b = 0 then sc b a = 0 else True) \<and>
         (if sc a b = 0 \<and> sc b c = 0 then sc a c = 0 else True) \<and>
         (if sc a b < 0 \<and> sc b c < 0 then sc a c < 0 else True) \<and>
         (if 0 < sc a b \<and> 0 < sc b c then 0 < sc a c else True)"
    by auto
qed

text \<open>Outcomes that are all "equal" are consistent, and the list stays as it is.\<close>

lemma consistentOn_all_equal:
  assumes "\<And>a b. a \<in> set xs \<Longrightarrow> b \<in> set xs \<Longrightarrow> sc a b = 0"
  shows "consistentOn sc xs"
  using consistentOn_key [of xs sc "\<lambda>a. 0"] assms by simp

text \<open>
  Claim C3, as stated: after a completed fetch cycle the cached list is sorted descending
  by parsed date, an article with an empty date counting as the epoch and so standing
  after every dated article. It fails: \<open>new Date('')\<close> is an Invalid Date, every
  comparison with it gives \<open>NaN\<close>, which the sort takes for "equal", and the undated
  article stays where the feed had it, here in front of a dated one. (With one dated and
  one undated article every comparison is "equal", the comparator is consistent, and the
  sort, being stable, leaves the list as it is.)
\<close>

theorem undated_article_stays_in_front:
  "map date (articles (fst (fetchRSSFeeds (lateMorning (\<lambda>k. onlyDigiday)) initialCache))) =
     [[], ''Wed, 01 May 2024 10:00:00 GMT''] \<and>
   map (epochFallback parseRFC)
       (articles (fst (fetchRSSFeeds (lateMorning (\<lambda>k. onlyDigiday)) initialCache))) =
     [0, 1714557600000] \<and>
   \<not> sorted_wrt (\<lambda>a b. epochFallback parseRFC b \<le> epochFallback parseRFC a)
        (articles (fst (fetchRSSFeeds (lateMorning (\<lambda>k. onlyDigiday)) initialCache)))"
proof -
  have cons: "consistentOn (SortCompare (comparefn parseRFC)) (feedArticles digiday)"
    by (rule consistentOn_all_equal)
      (auto simp: feedArticles_def digiday_def toArticle_def orElse_def datedItem_def
        undatedItem_def comparefn_def SortCompare_def newDate_def parseRFC_def)
  have "articles (fst (fetchRSSFeeds (lateMorning (\<lambda>k. onlyDigiday)) initialCache)) =
      stableOrder (SortCompare (comparefn parseRFC)) (feedArticles digiday)"
    by (simp add: fetchRSSFeeds_eq lateMorning_def fetchLoop_onlyDigiday
        arraySort_consistent [OF cons])
  then show ?thesis
    by (simp add: digiday_def feedArticles_def toArticle_def orElse_def datedItem_def
        undatedItem_def comparefn_def SortCompare_def newDate_def parseRFC_def
        epochFallback_def)
qed

text \<open>
  Claim C3, amended: after a completed fetch cycle in which the date of every cached
  article parses, the cached list is sorted descending by parsed date. (An article whose
  date is empty or does not parse compares as equal to every other article; where it
  ends up among articles with different dates is the engine's business, and nothing is
  said about it.)
\<close>

theorem cached_articles_sorted_when_dates_parse:
  assumes "\<forall>a \<in> set (articles (fst (fetchRSSFeeds w c))). newDate (dateParse w) (date a) \<noteq> None"
  shows "sorted_wrt
           (\<lambda>a b. \<exists>ta tb. newDate (dateParse w) (date a) = Some ta \<and>
                          newDate (dateParse w) (date b) = Some tb \<and> tb \<le> ta)
           (articles (fst (fetchRSSFeeds w c)))"
proof -
  define xs where "xs = fetchLoop (network w (cycles w)) FEEDS []"
  define k :: "article \<Rightarrow> int" where "k = (\<lambda>a. the (newDate (dateParse w) (date a)))"
  have arts: "articles (fst (fetchRSSFeeds w c)) =
      arraySort (engineSort w) (comparefn (dateParse w)) xs"
    by (simp add: fetchRSSFeeds_eq xs_def)
  have valid: "\<And>a. a \<in> set xs \<Longrightarrow> newDate (dateParse w) (date a) = Some (k a)"
    using assms by (auto simp: arts set_arraySort k_def)
  have cmp: "\<And>a b. a \<in> set xs \<Longrightarrow> b \<in> set xs \<Longrightarrow>
               SortCompare (comparefn (dateParse w)) a b = k b - k a"
    by (simp add: SortCompare_def comparefn_def valid)
  have cons: "consistentOn (SortCompare (comparefn (dateParse w))) xs"
    using cmp by (rule consistentOn_key)
  have stable: "arraySort (engineSort w) (comparefn (dateParse w)) xs =
      stableOrder (SortCompare (comparefn (dateParse w))) xs"
    using cons by (rule arraySort_consistent)
  have "sorted_wrt (\<lambda>a b. k b \<le> k a) (stableOrder (SortCompare (comparefn (dateParse w))) xs)"
    using stableOrder_sorted [of "set xs" "SortCompare (comparefn (dateParse w))" k xs] cmp
    by simp
  then have "sorted_wrt
           (\<lambda>a b. \<exists>ta tb. newDate (dateParse w) (date a) = Some ta \<and>
                          newDate (dateParse w) (date b) = Some tb \<and> tb \<le> ta)
           (stableOrder (SortCompare (comparefn (dateParse w))) xs)"
    by (rule sorted_wrt_mono_rel [rotated]) (simp add: set_stableOrder valid)
  then show ?thesis by (simp add: arts stable)
qed

theorem cached_articles_sorted_when_dates_parse_witness:
  "list_all (\<lambda>a. newDate parseRFC (date a) \<noteq> None)
     (articles (fst (fetchRSSFeeds (lateMorning (\<lambda>k. onlyAdweek)) initialCache))) \<and>
   map date (fetchLoop onlyAdweek FEEDS []) =
     [''Tue, 30 Apr 2024 09:30:00 GMT'', ''Wed, 01 May 2024 10:00:00 GMT''] \<and>
   map date (articles (fst (fetchRSSFeeds (lateMorning (\<lambda>k. onlyAdweek)) initialCache))) =
     [''Wed, 01 May 2024 10:00:00 GMT'', ''Tue, 30 Apr 2024 09:30:00 GMT''] \<and>
   sorted_wrt
     (\<lambda>a b. \<exists>ta tb. newDate parseRFC (date a) = Some ta \<and>
                    newDate parseRFC (date b) = Some tb \<and> tb \<le> ta)
     (articles (fst (fetchRSSFeeds (lateMorning (\<lambda>k. onlyAdweek)) initialCache)))"
proof -
  have cons: "consistentOn (SortCompare (comparefn parseRFC)) (feedArticles adweek)"
    by (rule consistentOn_key [where k = "\<lambda>a. the (parseRFC (date a))"])
      (auto simp: feedArticles_def adweek_def toArticle_def orElse_def datedItem_def
        olderItem_def comparefn_def SortCompare_def newDate_def parseRFC_def)
  have "articles (fst (fetchRSSFeeds (lateMorning (\<lambda>k. onlyAdweek)) initialCache)) =
      stableOrder (SortCompare (comparefn parseRFC)) (feedArticles adweek)"
    by (simp add: fetchRSSFeeds_eq lateMorning_def fetchLoop_onlyAdweek
        arraySort_consistent [OF cons])
  then have ev: "articles (fst (fetchRSSFeeds (lateMorning (\<lambda>k. onlyAdweek)) initialCache)) =
      [toArticle adweek datedItem, toArticle adweek olderItem]"
    by (simp add: adweek_def feedArticles_def toArticle_def orElse_def datedItem_def
        olderItem_def comparefn_def SortCompare_def newDate_def parseRFC_def)
  have h: "\<forall>a \<in> set (articles (fst (fetchRSSFeeds (lateMorning (\<lambda>k. onlyAdweek)) initialCache))).
      newDate (dateParse (lateMorning (\<lambda>k. onlyAdweek))) (date a) \<noteq> None"
    unfolding ev
    by (simp add: lateMorning_def toArticle_def orElse_def datedItem_def olderItem_def
        newDate_def parseRFC_def)
  have dp: "dateParse (lateMorning (\<lambda>k. onlyAdweek)) = parseRFC"
    by (simp add: lateMorning_def)
  have raw: "map date (fetchLoop onlyAdweek FEEDS []) =
     [''Tue, 30 Apr 2024 09:30:00 GMT'', ''Wed, 01 May 2024 10:00:00 GMT'']"
    by (simp add: FEEDS_def onlyAdweek_def adweek_def
        feedArticles_def toArticle_def orElse_def datedItem_def olderItem_def)
  have dates: "map date (articles (fst (fetchRSSFeeds (lateMorning (\<lambda>k. onlyAdweek)) initialCache))) =
     [''Wed, 01 May 2024 10:00:00 GMT'', ''Tue, 30 Apr 2024 09:30:00 GMT'']"
    by (simp add: ev toArticle_def orElse_def datedItem_def olderItem_def)
  show ?thesis
    using h cached_articles_sorted_when_dates_parse [OF h] raw dates unfolding dp
    by (simp add: list_all_iff)
qed

subsection \<open>Fetch cycles that retrieve nothing\<close>

lemma fetchLoop_all_fail:
  assumes "\<forall>u \<in> set urls. isl (p u)"
  shows "fetchLoop p urls acc = acc"
proof -
  have "filter (\<lambda>u. \<not> isl (p u)) urls = []" using assms by (simp add: filter_empty_conv)
  then show ?thesis by (simp add: fetchLoop_append)
qed

lemma fetchLoop_productive:
  assumes "u \<in> set urls" and "\<not> isl (p u)" and "feedArticles (projr (p u)) \<noteq> []"
  shows "fetchLoop p urls [] \<noteq> []"
proof -
  have "u \<in> set (filter (\<lambda>u. \<not> isl (p u)) urls)" using assms by simp
  then show ?thesis using assms(3) by (auto simp: fetchLoop_append)
qed

lemma now_eq: "now w = (clock w (reads w), w\<lparr>reads := Suc (reads w)\<rparr>)"
  by (simp add: now_def)

lemma shouldFetchToday_eq:
  "shouldFetchToday w c =
     (getHours w (estTime w (clock w (reads w))) = 7 \<and>
      lastFetchDate c \<noteq> Some (toDateString w (estTime w (clock w (reads w)))),
      w\<lparr>reads := Suc (reads w)\<rparr>)"
  by (simp add: shouldFetchToday_def now_def Let_def getHours_def estTime_def toDateString_def
      LocalTime_def UTC_def)

text \<open>
  Claim C10. \<open>POST /api/fetch-now\<close> always answers with status 200 and a body
  \<open>{message, articlesCount, lastFetch}\<close> in which \<open>articlesCount\<close> is the length of the
  cached list after the forced cycle and \<open>lastFetch\<close> its \<open>lastFetchDate\<close>; when every
  feed fails the count is 0 and the cache holds the empty list, whatever it held before.
\<close>

theorem fetchNow_reports_cache:
  "status (fst (fetchNow w c)) = 200 \<and>
   rbody (fst (fetchNow w c)) =
     FetchNowBody ''Manual fetch completed'' (length (articles (fst (snd (fetchNow w c)))))
       (lastFetchDate (fst (snd (fetchNow w c)))) \<and>
   fst (snd (fetchNow w c)) = fst (fetchRSSFeeds w c) \<and>
   ((\<forall>u \<in> set FEEDS. isl (network w (cycles w) u)) \<longrightarrow>
      articlesCount (rbody (fst (fetchNow w c))) = 0 \<and> articles (fst (snd (fetchNow w c))) = [])"
  by (simp add: fetchNow_def fetchRSSFeeds_eq json_def fetchLoop_all_fail)

theorem fetchNow_reports_cache_witness:
  "list_all (\<lambda>u. isl (network (lateMorning (\<lambda>k. noFeed)) (cycles (lateMorning (\<lambda>k. noFeed))) u))
     FEEDS \<and>
   articles yesterdaysCache \<noteq> [] \<and>
   fst (fetchNow (lateMorning (\<lambda>k. noFeed)) yesterdaysCache) =
     \<lparr>status = 200, headers = [],
      rbody = FetchNowBody ''Manual fetch completed'' 0 (Some ''2024-05-01T15:02:00.000Z'')\<rparr> \<and>
   articles (fst (snd (fetchNow (lateMorning (\<lambda>k. noFeed)) yesterdaysCache))) = []"
proof -
  have h: "\<forall>u \<in> set FEEDS. isl (network (lateMorning (\<lambda>k. noFeed)) (cycles (lateMorning (\<lambda>k. noFeed))) u)"
    by (simp add: lateMorning_def noFeed_def)
  have iso: "toISOString 1714575720000 = ''2024-05-01T15:02:00.000Z''" by code_simp
  have lf: "lastFetchDate (fst (snd (fetchNow (lateMorning (\<lambda>k. noFeed)) yesterdaysCache))) =
      Some ''2024-05-01T15:02:00.000Z''"
    by (simp add: fetchNow_def fetchRSSFeeds_eq lateMorning_def iso)
  have ne: "articles yesterdaysCache \<noteq> []" by (simp add: yesterdaysCache_def)
  have hd: "headers (fst (fetchNow (lateMorning (\<lambda>k. noFeed)) yesterdaysCache)) = []"
    by (simp add: fetchNow_def fetchRSSFeeds_eq json_def)
  show ?thesis
    using h ne hd lf fetchNow_reports_cache [of "lateMorning (\<lambda>k. noFeed)" yesterdaysCache]
    by (cases "fst (fetchNow (lateMorning (\<lambda>k. noFeed)) yesterdaysCache)")
      (auto simp: list_all_iff)
qed

subsection \<open>Does the cache stay non-empty?\<close>

lemma fetchRSSFeeds_nonempty:
  assumes "\<exists>u \<in> set FEEDS. \<not> isl (network w (cycles w) u) \<and>
             feedArticles (projr (network w (cycles w) u)) \<noteq> []"
  shows "articles (fst (fetchRSSFeeds w c)) \<noteq> []"
  using assms by (auto simp: fetchRSSFeeds_eq arraySort_Nil_iff dest: fetchLoop_productive)

text \<open>
  Claim C4, as stated: once a fetch cycle has produced a non-empty cached list, no later
  operation leaves the system serving an empty articles response, and a later cycle in
  which every feed fails does not replace the cache by an empty one. It fails: the cycle
  assigns the cache whatever it has collected. Here the first cycle caches two articles,
  the next one, with every feed down, caches none, and \<open>GET /api/news\<close> then runs one
  more cycle, which also retrieves nothing, and answers with an empty list.
\<close>

theorem empty_cycle_empties_cache:
  "length (articles (fst afterFirstCycle)) = 2 \<and>
   articles (fst afterFailedCycle) = [] \<and>
   fst (getNews (snd afterFailedCycle) (fst afterFailedCycle)) =
     \<lparr>status = 200, headers = [],
      rbody = NewsBody [] (Some ''2024-05-01T15:09:00.000Z'') ''initial fetch''\<rparr>"
proof -
  have iso: "toISOString 1714576140000 = ''2024-05-01T15:09:00.000Z''" by code_simp
  have first: "length (articles (fst afterFirstCycle)) = 2"
    by (simp add: afterFirstCycle_def fetchRSSFeeds_eq lateMorning_def firstCycleOnly_def
        fetchLoop_onlyDigiday length_arraySort feedArticles_def digiday_def)
  have w1: "snd afterFirstCycle = (lateMorning firstCycleOnly)\<lparr>reads := 3, cycles := 1\<rparr>"
    by (simp add: afterFirstCycle_def fetchRSSFeeds_eq lateMorning_def)
  have second: "articles (fst afterFailedCycle) = []"
    by (simp add: afterFailedCycle_def w1 fetchRSSFeeds_eq lateMorning_def firstCycleOnly_def
        fetchLoop_all_fail [OF noFeed_fails])
  have w2: "snd afterFailedCycle = (lateMorning firstCycleOnly)\<lparr>reads := 6, cycles := 2\<rparr>"
    by (simp add: afterFailedCycle_def w1 fetchRSSFeeds_eq lateMorning_def)
  have third: "fst (getNews (snd afterFailedCycle) (fst afterFailedCycle)) =
     \<lparr>status = 200, headers = [],
      rbody = NewsBody [] (Some ''2024-05-01T15:09:00.000Z'') ''initial fetch''\<rparr>"
    unfolding w2
    by (simp add: getNews_def shouldFetchToday_eq second lateMorning_def getHours_def
        estTime_def LocalTime_def UTC_def HourFromTime_def msPerSecond_def msPerHour_def
        fetchRSSFeeds_eq firstCycleOnly_def fetchLoop_all_fail [OF noFeed_fails] json_def iso)
  show ?thesis using first second third by simp
qed

text \<open>
  Claim C4, amended: once the cached list is non-empty, it stays non-empty through a
  fetch cycle (the timer's, a catch-up or a forced one) and through \<open>GET /api/news\<close>,
  which answers with a non-empty list, for as long as every fetch cycle that runs
  retrieves at least one article.
\<close>

theorem nonempty_cache_kept_while_cycles_deliver:
  assumes "articles c \<noteq> []"
    and "\<forall>k. \<exists>u \<in> set FEEDS. \<not> isl (network w k u) \<and> feedArticles (projr (network w k u)) \<noteq> []"
  shows "articles (fst (fetchRSSFeeds w c)) \<noteq> [] \<and>
         articles (fst (snd (fetchNow w c))) \<noteq> [] \<and>
         newsArticles (rbody (fst (getNews w c))) \<noteq> [] \<and>
         articles (fst (snd (getNews w c))) \<noteq> []"
proof -
  have cyc: "\<And>w' c'. network w' = network w \<Longrightarrow> articles (fst (fetchRSSFeeds w' c')) \<noteq> []"
    using assms(2) by (intro fetchRSSFeeds_nonempty) simp
  have a: "articles (fst (fetchRSSFeeds w c)) \<noteq> []" using cyc by simp
  have b: "articles (fst (snd (fetchNow w c))) \<noteq> []"
    using a by (simp add: fetchNow_def split_def Let_def)
  obtain due w1 where sf: "shouldFetchToday w c = (due, w1)" and net: "network w1 = network w"
    by (simp add: shouldFetchToday_eq)
  have c: "newsArticles (rbody (fst (getNews w c))) \<noteq> [] \<and> articles (fst (snd (getNews w c))) \<noteq> []"
  proof (cases due)
    case True
    then show ?thesis using cyc [OF net, of c]
      by (simp add: getNews_def sf split_def json_def Let_def)
  next
    case False
    then show ?thesis using assms(1)
      by (simp add: getNews_def sf json_def)
  qed
  show ?thesis using a b c by simp
qed

theorem nonempty_cache_kept_while_cycles_deliver_witness:
  "articles yesterdaysCache \<noteq> [] \<and>
   (\<forall>k. \<exists>u \<in> set FEEDS. \<not> isl (network (sevenTen (\<lambda>k. onlyDigiday)) k u) \<and>
          feedArticles (projr (network (sevenTen (\<lambda>k. onlyDigiday)) k u)) \<noteq> []) \<and>
   articles (fst (fetchRSSFeeds (sevenTen (\<lambda>k. onlyDigiday)) yesterdaysCache)) \<noteq> [] \<and>
   articles (fst (snd (fetchNow (sevenTen (\<lambda>k. onlyDigiday)) yesterdaysCache))) \<noteq> [] \<and>
   newsArticles (rbody (fst (getNews (sevenTen (\<lambda>k. onlyDigiday)) yesterdaysCache))) \<noteq> [] \<and>
   articles (fst (snd (getNews (sevenTen (\<lambda>k. onlyDigiday)) yesterdaysCache))) \<noteq> []"
proof -
  have h1: "articles yesterdaysCache \<noteq> []" by (simp add: yesterdaysCache_def)
  have h2: "\<forall>k. \<exists>u \<in> set FEEDS. \<not> isl (network (sevenTen (\<lambda>k. onlyDigiday)) k u) \<and>
          feedArticles (projr (network (sevenTen (\<lambda>k. onlyDigiday)) k u)) \<noteq> []"
    by (simp add: sevenTen_def FEEDS_def onlyDigiday_def feedArticles_def digiday_def)
  show ?thesis
    using h1 h2 nonempty_cache_kept_while_cycles_deliver [OF h1 h2] by blast
qed

subsection \<open>Clearing the cache\<close>

text \<open>
  Claim C6, as stated: after \<open>POST /api/clear-cache\<close>, a \<open>GET /api/news\<close> with no feed
  reachable answers with an empty list and \<open>lastFetch\<close> equal to \<open>null\<close>. The reset and
  the empty list hold; \<open>lastFetch\<close> is not \<open>null\<close>: the handler finds the cache empty
  and runs a fetch cycle, and a cycle in which every feed fails still completes and sets
  \<open>lastFetchDate\<close>.
\<close>

theorem clear_then_news_reports_a_fetch_date:
  "snd (clearCache yesterdaysCache) = initialCache \<and>
   fst (getNews (lateMorning (\<lambda>k. noFeed)) (snd (clearCache yesterdaysCache))) =
     \<lparr>status = 200, headers = [],
      rbody = NewsBody [] (Some ''2024-05-01T15:03:00.000Z'') ''initial fetch''\<rparr> \<and>
   newsLastFetch (rbody (fst (getNews (lateMorning (\<lambda>k. noFeed)) (snd (clearCache yesterdaysCache)))))
     \<noteq> None"
proof -
  have iso: "toISOString 1714575780000 = ''2024-05-01T15:03:00.000Z''" by code_simp
  have "fst (getNews (lateMorning (\<lambda>k. noFeed)) (snd (clearCache yesterdaysCache))) =
     \<lparr>status = 200, headers = [],
      rbody = NewsBody [] (Some ''2024-05-01T15:03:00.000Z'') ''initial fetch''\<rparr>"
    by (simp add: clearCache_def getNews_def shouldFetchToday_eq lateMorning_def getHours_def
        estTime_def LocalTime_def UTC_def HourFromTime_def msPerSecond_def msPerHour_def
        fetchRSSFeeds_eq fetchLoop_all_fail [OF noFeed_fails] json_def iso)
  then show ?thesis by (simp add: clearCache_def initialCache_def)
qed

text \<open>
  Claim C6, amended: \<open>POST /api/clear-cache\<close> resets the cache to the empty initial
  state, and a following \<open>GET /api/news\<close> in which no feed is reachable answers, without
  raising, with status 200, an empty list, the cache status \<open>initial fetch\<close>, and as
  \<open>lastFetch\<close> the ISO timestamp the fetch cycle it has just run took from the clock
  (the third reading after the handler's own, or the sixth when the catch-up cycle has
  run before).
\<close>

theorem clear_then_news_when_no_feed_answers:
  assumes "\<forall>k. \<forall>u \<in> set FEEDS. isl (network w k u)"
  shows "snd (clearCache c) = initialCache \<and>
         fst (getNews w (snd (clearCache c))) =
           \<lparr>status = 200, headers = [],
            rbody = NewsBody []
              (Some (toISOString (clock w (reads w +
                 (if getHours w (estTime w (clock w (reads w))) = 7 then 6 else 3)))))
              ''initial fetch''\<rparr>"
proof -
  have loop: "\<And>k. fetchLoop (network w k) FEEDS [] = []"
    using assms by (simp add: fetchLoop_all_fail)
  show ?thesis
    by (simp add: clearCache_def initialCache_def getNews_def shouldFetchToday_eq
        fetchRSSFeeds_eq loop json_def getHours_def estTime_def LocalTime_def eval_nat_numeral)
qed

theorem clear_then_news_when_no_feed_answers_witness:
  "(\<forall>k. list_all (\<lambda>u. isl (network (sevenTen (\<lambda>k. noFeed)) k u)) FEEDS) \<and>
   getHours (sevenTen (\<lambda>k. noFeed)) (estTime (sevenTen (\<lambda>k. noFeed)) 1714561800000) = 7 \<and>
   snd (clearCache yesterdaysCache) = initialCache \<and>
   fst (getNews (sevenTen (\<lambda>k. noFeed)) (snd (clearCache yesterdaysCache))) =
     \<lparr>status = 200, headers = [],
      rbody = NewsBody [] (Some ''2024-05-01T11:16:00.000Z'') ''initial fetch''\<rparr>"
proof -
  have h: "\<forall>k. \<forall>u \<in> set FEEDS. isl (network (sevenTen (\<lambda>k. noFeed)) k u)"
    by (simp add: sevenTen_def noFeed_def)
  have iso: "toISOString 1714562160000 = ''2024-05-01T11:16:00.000Z''" by code_simp
  have hour: "getHours (sevenTen (\<lambda>k. noFeed)) (estTime (sevenTen (\<lambda>k. noFeed)) 1714561800000) = 7"
    by (simp add: sevenTen_def getHours_def estTime_def LocalTime_def UTC_def HourFromTime_def
        msPerSecond_def msPerHour_def)
  have clk: "clock (sevenTen (\<lambda>k. noFeed)) (reads (sevenTen (\<lambda>k. noFeed))) = 1714561800000"
    "clock (sevenTen (\<lambda>k. noFeed)) (reads (sevenTen (\<lambda>k. noFeed)) + 6) = 1714562160000"
    by (simp_all add: sevenTen_def)
  note t = clear_then_news_when_no_feed_answers [OF h, of yesterdaysCache]
  have t1: "snd (clearCache yesterdaysCache) = initialCache" using t by (rule conjunct1)
  have t2: "fst (getNews (sevenTen (\<lambda>k. noFeed)) (snd (clearCache yesterdaysCache))) =
     \<lparr>status = 200, headers = [],
      rbody = NewsBody [] (Some ''2024-05-01T11:16:00.000Z'') ''initial fetch''\<rparr>"
    using conjunct2 [OF t] by (simp add: clk hour iso)
  show ?thesis using h hour t1 t2 by (simp add: list_all_iff)
qed

subsection \<open>The next fetch time\<close>










subsection \<open>The catch-up check after a fetch\<close>

text \<open>A fetch cycle stores an ISO timestamp, which ends in \<open>Z\<close>; the check compares it
  with a date string, which ends in a digit of the year. The two are never equal, so
  after any fetch cycle the check answers "fetch" during the whole hour from 7 to 8.\<close>

lemma last_digits: "last (digits n) = digit (n mod 10)"
  by (subst digits.simps) (simp add: digit_def)

lemma last_pad: "last (pad k n) = digit (n mod 10)"
  by (simp add: pad_def digits_nonempty last_digits)

lemma pad_nonempty: "pad k n \<noteq> []"
  by (simp add: pad_def digits_nonempty)

lemma digit_not_Z: "digit d \<noteq> CHR ''Z''"
proof -
  have "digit d \<in> set ''0123456789''"
    unfolding digit_def by (rule nth_mem) simp
  then show ?thesis by auto
qed

lemma last_toISOString: "last (toISOString t) = CHR ''Z''"
  by (simp add: toISOString_def)

lemma last_DateString: "last (DateString tv) \<noteq> CHR ''Z''"
  by (simp add: DateString_def pad_nonempty last_pad digit_not_Z)

lemma toISOString_neq_DateString: "toISOString t \<noteq> DateString tv"
  using last_toISOString [of t] last_DateString [of tv] by metis

lemma catch_up_is_due_all_hour:
  "fst (shouldFetchToday w' (fst (fetchRSSFeeds w c))) =
     (getHours w' (estTime w' (clock w' (reads w'))) = 7)"
  by (simp add: shouldFetchToday_eq fetchRSSFeeds_eq toDateString_def toISOString_neq_DateString)

text \<open>
  Claim C1: a successful fetch cycle sets \<open>lastFetchDate\<close> to the current date string of
  the reference zone, so that every later \<open>shouldFetchToday\<close> of the same day finds it
  equal to today's and no second catch-up fetch is made. The code does not do this. It
  stores \<open>new Date().toISOString()\<close> and compares with \<open>estTime.toDateString()\<close>: a
  request at 07:10 in New York runs the catch-up cycle and leaves
  \<open>2024-05-01T11:13:00.000Z\<close> in the cache; at the next request, at 07:14, today is
  \<open>Wed May 01 2024\<close>, the check answers "fetch" again, and a second cycle runs.
\<close>

theorem second_request_fetches_again:
  "cycles (snd (snd firstRequest)) = 1 \<and>
   lastFetchDate (fst (snd firstRequest)) = Some ''2024-05-01T11:13:00.000Z'' \<and>
   clock (snd (snd firstRequest)) (reads (snd (snd firstRequest))) = 1714562040000 \<and>
   toISOString 1714562040000 = ''2024-05-01T11:14:00.000Z'' \<and>
   toDateString (snd (snd firstRequest)) (estTime (snd (snd firstRequest)) 1714562040000) =
     ''Wed May 01 2024'' \<and>
   fst (shouldFetchToday (snd (snd firstRequest)) (fst (snd firstRequest))) \<and>
   cycles (snd (snd secondRequest)) = 2 \<and>
   lastFetchDate (fst (snd secondRequest)) = Some ''2024-05-01T11:17:00.000Z''"
proof -
  have iso: "toISOString 1714561980000 = ''2024-05-01T11:13:00.000Z''"
    "toISOString 1714562040000 = ''2024-05-01T11:14:00.000Z''" 
    "toISOString 1714562220000 = ''2024-05-01T11:17:00.000Z''" by code_simp+
  have ds: "DateString 1714547640000 = ''Wed May 01 2024''" by code_simp
  have "last ''2024-04-30T11:00:00.012Z'' = CHR ''Z''" by simp
  then have old: "''2024-04-30T11:00:00.012Z'' \<noteq> DateString tv" for tv
    using last_DateString [of tv] by metis
  have arts: "articles (fst (fetchRSSFeeds w c)) \<noteq> []" if "network w (cycles w) = onlyDigiday" for w c
    using that by (simp add: fetchRSSFeeds_eq arraySort_Nil_iff fetchLoop_onlyDigiday feedArticles_def digiday_def)
  have first: "firstRequest =
     (json (NewsBody (articles (fst (fetchRSSFeeds ((sevenTen (\<lambda>k. onlyDigiday))\<lparr>reads := 1\<rparr>) yesterdaysCache)))
        (Some ''2024-05-01T11:13:00.000Z'') ''serving cached data''),
      fst (fetchRSSFeeds ((sevenTen (\<lambda>k. onlyDigiday))\<lparr>reads := 1\<rparr>) yesterdaysCache),
      (sevenTen (\<lambda>k. onlyDigiday))\<lparr>reads := 4, cycles := 1\<rparr>)"
    unfolding firstRequest_def getNews_def shouldFetchToday_eq
    apply (simp add: sevenTen_def yesterdaysCache_def old toDateString_def getHours_def
        estTime_def LocalTime_def UTC_def HourFromTime_def msPerSecond_def msPerHour_def)
    apply (simp add: Let_def split_def arts)
    apply (simp add: fetchRSSFeeds_eq iso)
    done
  define w1 where "w1 = (sevenTen (\<lambda>k. onlyDigiday))\<lparr>reads := 4, cycles := 1\<rparr>"
  define c1 where "c1 = fst (fetchRSSFeeds ((sevenTen (\<lambda>k. onlyDigiday))\<lparr>reads := 1\<rparr>) yesterdaysCache)"
  have s1: "snd (snd firstRequest) = w1" and s2: "fst (snd firstRequest) = c1"
    by (simp_all add: first w1_def c1_def)
  have lf: "lastFetchDate c1 = Some ''2024-05-01T11:13:00.000Z''"
    by (simp add: c1_def fetchRSSFeeds_eq sevenTen_def iso)
  have clk: "clock w1 (reads w1) = 1714562040000" by (simp add: w1_def sevenTen_def)
  have hour: "getHours w1 (estTime w1 1714562040000) = 7"
    by (simp add: w1_def sevenTen_def getHours_def estTime_def LocalTime_def UTC_def HourFromTime_def
        msPerSecond_def msPerHour_def)
  have today: "toDateString w1 (estTime w1 1714562040000) = ''Wed May 01 2024''"
    by (simp add: w1_def sevenTen_def toDateString_def estTime_def LocalTime_def UTC_def
        msPerSecond_def ds)
  have due: "fst (shouldFetchToday w1 c1)"
    unfolding c1_def catch_up_is_due_all_hour clk by (rule hour)
  have net: "network w1 (cycles (w1\<lparr>reads := Suc (reads w1)\<rparr>)) = onlyDigiday"
    by (simp add: w1_def sevenTen_def)
  have second: "cycles (snd (snd secondRequest)) = 2 \<and>
      lastFetchDate (fst (snd secondRequest)) = Some ''2024-05-01T11:17:00.000Z''"
    unfolding secondRequest_def s1 s2 getNews_def
    using due arts [of "w1\<lparr>reads := Suc (reads w1)\<rparr>" c1] net
    apply (simp add: shouldFetchToday_eq split_def Let_def)
    apply (simp add: fetchRSSFeeds_eq w1_def sevenTen_def iso)
    done
  show ?thesis
    using lf clk hour today due second iso(2) unfolding s1 s2 by (simp add: w1_def)
qed

subsection \<open>The summarize route\<close>

lemma extractContent_chatCompletion: "extractContent (chatCompletion content) = Inr (trim content)"
  by (simp add: extractContent_def chatCompletion_def getProp_def optChain_def)

lemma strip_trim_empty: "trim (stripBullet []) = []"
  by (simp add: trim_def stripBullet_def)

lemma linesOf_skip_newlines:
  "filter (\<lambda>l. l \<noteq> []) (map (\<lambda>l. trim (stripBullet l)) (linesOf [] (dropWhile isNL cs))) =
   filter (\<lambda>l. l \<noteq> []) (map (\<lambda>l. trim (stripBullet l)) (linesOf [] cs))"
  by (induction cs) (simp_all add: strip_trim_empty)

lemma splitNL_linesOf:
  "filter (\<lambda>l. l \<noteq> []) (map (\<lambda>l. trim (stripBullet l)) (splitNL cur s)) =
   filter (\<lambda>l. l \<noteq> []) (map (\<lambda>l. trim (stripBullet l)) (linesOf cur s))"
proof (induction cur s rule: splitNL.induct)
  case (1 cur)
  show ?case by simp
next
  case (2 cur c cs)
  show ?case
  proof (cases "isNL c")
    case True
    then show ?thesis using 2(1) by (simp add: linesOf_skip_newlines)
  next
    case False
    then show ?thesis using 2(2) by simp
  qed
qed

lemma bulletItems_specBullets: "bulletItems s = specBullets s"
  by (simp add: bulletItems_def specBullets_def splitNL_linesOf)

lemma summarize_rejected:
  "\<not> falsy text \<Longrightarrow>
   summarize text (Rejected msg) =
     \<lparr>status = 500, headers = [], rbody = ErrorDetails ''Failed to summarize'' msg\<rparr>"
  by (simp add: summarize_def failed_def)

text \<open>
  Claim C5: whenever the call of the chat-completion API fails, by a transport error or
  by a non-success response, \<open>POST /api/summarize\<close> answers 500 with \<open>{error, details}\<close>,
  never 200. The code does so for a transport error (\<open>summarize_rejected\<close>) and for a
  body that is not JSON, but it never looks at the status of the response, as the
  text-to-speech route does: the API's answer to a bad key, status 401 with a JSON error
  object, has no \<open>choices\<close>, the content is taken to be empty, and the route answers 200
  with an empty summary.
\<close>

theorem summarize_answers_200_on_api_error:
  "\<not> ok unauthorized \<and>
   summarize (Some ''Ad spend rose in the first quarter.'') (Resolved unauthorized) =
     \<lparr>status = 200, headers = [], rbody = SummaryBody []\<rparr>"
  by (simp add: ok_def unauthorized_def summarize_def falsy_def extractContent_def getProp_def
      optChain_def json_def formatSummary_def startsWithDash_def)

text \<open>
  Claim C8. For every non-empty text, when the content extracted from the API's answer
  (the first choice's message content, trimmed: \<open>summaryRaw\<close>) starts with a dash, the
  summary is an unordered list with one entry for each line of the content that has
  text, the line without its bullet marker and the white space around it; otherwise it
  is the extracted content unchanged. For the content \<open>- a\<close>, line feed, \<open>- b\<close> the
  summary is the list of \<open>a\<close> and \<open>b\<close>.
\<close>

theorem summarize_formats_bullets:
  assumes \<open>text \<noteq> []\<close>
  shows \<open>summarize (Some text) (Resolved \<lparr>upStatus = st, upJson = Inr (chatCompletion content), upBytes = bs\<rparr>) =
           \<lparr>status = 200, headers = [],
            rbody = SummaryBody
              (if startsWithDash (trim content)
               then ''<ul style="padding-left:1.5em;list-style:disc;">'' @
                    concat (map (\<lambda>item. ''<li>'' @ item @ ''</li>'') (specBullets (trim content))) @
                    ''</ul>''
               else trim content)\<rparr> \<and>
         summarize (Some text)
           (Resolved \<lparr>upStatus = st, upJson = Inr (chatCompletion ''- a\<newline>- b''), upBytes = bs\<rparr>) =
           \<lparr>status = 200, headers = [],
            rbody = SummaryBody
              ''<ul style="padding-left:1.5em;list-style:disc;"><li>a</li><li>b</li></ul>''\<rparr>\<close>
proof -
  have gen: \<open>summarize (Some text) (Resolved \<lparr>upStatus = st, upJson = Inr (chatCompletion c), upBytes = bs\<rparr>) =
           \<lparr>status = 200, headers = [], rbody = SummaryBody (formatSummary (trim c))\<rparr>\<close> for c
    using assms by (simp add: summarize_def falsy_def extractContent_chatCompletion json_def)
  have ex: \<open>formatSummary (trim ''- a\<newline>- b'') =
      ''<ul style="padding-left:1.5em;list-style:disc;"><li>a</li><li>b</li></ul>''\<close>
    by code_simp
  show ?thesis
    unfolding gen ex by (simp add: formatSummary_def bulletItems_specBullets)
qed

theorem summarize_formats_bullets_witness:
  \<open>''Ad spend rose.'' \<noteq> [] \<and>
   summarize (Some ''Ad spend rose.'')
     (Resolved \<lparr>upStatus = 200,
        upJson = Inr (chatCompletion '' - Spend is up\<newline>\<newline>-  TV is flat \<newline>''),
        upBytes = []\<rparr>) =
     \<lparr>status = 200, headers = [],
      rbody = SummaryBody
        ''<ul style="padding-left:1.5em;list-style:disc;"><li>Spend is up</li><li>TV is flat</li></ul>''\<rparr> \<and>
   summarize (Some ''Ad spend rose.'')
     (Resolved \<lparr>upStatus = 200, upJson = Inr (chatCompletion ''Spend is up - TV is flat. ''), upBytes = []\<rparr>) =
     \<lparr>status = 200, headers = [], rbody = SummaryBody ''Spend is up - TV is flat.''\<rparr>\<close>
proof -
  have h: "''Ad spend rose.'' \<noteq> []" by simp
  have t1: "trim '' - Spend is up\<newline>\<newline>-  TV is flat \<newline>'' =
      ''- Spend is up\<newline>\<newline>-  TV is flat''" by code_simp
  have d1: "startsWithDash ''- Spend is up\<newline>\<newline>-  TV is flat''" by code_simp
  have b1: "specBullets ''- Spend is up\<newline>\<newline>-  TV is flat'' =
      [''Spend is up'', ''TV is flat'']" by code_simp
  have t2: "trim ''Spend is up - TV is flat. '' = ''Spend is up - TV is flat.''" by code_simp
  have d2: "\<not> startsWithDash ''Spend is up - TV is flat.''" by code_simp
  show ?thesis
    using h
      conjunct1 [OF summarize_formats_bullets [OF h, of 200
          "'' - Spend is up\<newline>\<newline>-  TV is flat \<newline>''" "[]"]]
      conjunct1 [OF summarize_formats_bullets [OF h, of 200 "''Spend is up - TV is flat. ''" "[]"]]
    unfolding t1 t2 by (simp add: d1 d2 b1)
qed

subsection \<open>The text-to-speech route\<close>










end
